theory Spec2Isabelle
  imports Main "HOL-Library.Word"
begin

section \<open>Machine types\<close>

text \<open>
  \<^verbatim>\<open>int64_t\<close> is a 64-bit word and \<^verbatim>\<open>int\<close>/\<^verbatim>\<open>int32_t\<close> a 32-bit word; \<open>+\<close> wraps
  around and \<open>sint\<close> reads the two's-complement value. Signed overflow, which C++
  leaves undefined, is taken as this wrap-around.
\<close>

type_synonym int64_t = "64 word"
type_synonym int32_t = "32 word"

section \<open>be/src/exec/tablet\_sink.h: AddBatchCounter\<close>

text \<open>
  \<^verbatim>\<open>struct AddBatchCounter\<close> (lines 57-75): three \<^verbatim>\<open>int64_t\<close> members, each with the
  default member initialiser \<^verbatim>\<open>= 0\<close>.
\<close>

record AddBatchCounter =
  add_batch_execution_time_us :: int64_t
  add_batch_wait_lock_time_us :: int64_t
  add_batch_num :: int64_t

text \<open>The default-constructed counter.\<close>

definition AddBatchCounter_init :: AddBatchCounter where
  "AddBatchCounter_init =
     \<lparr>add_batch_execution_time_us = 0, add_batch_wait_lock_time_us = 0, add_batch_num = 0\<rparr>"

text \<open>
  \<^verbatim>\<open>operator+=\<close>: three assignments in the order of the source, each reading one member of
  \<^verbatim>\<open>rhs\<close>; the result is the updated \<^verbatim>\<open>*this\<close>.
\<close>

definition plus_assign :: "AddBatchCounter \<Rightarrow> AddBatchCounter \<Rightarrow> AddBatchCounter" where
  "plus_assign this rhs =
     (let s1 = this\<lparr>add_batch_execution_time_us :=
                  add_batch_execution_time_us this + add_batch_execution_time_us rhs\<rparr>;
          s2 = s1\<lparr>add_batch_wait_lock_time_us :=
                  add_batch_wait_lock_time_us s1 + add_batch_wait_lock_time_us rhs\<rparr>;
          s3 = s2\<lparr>add_batch_num := add_batch_num s2 + add_batch_num rhs\<rparr>
      in s3)"

text \<open>\<^verbatim>\<open>operator+\<close>: copy \<^verbatim>\<open>lhs\<close> into \<^verbatim>\<open>sum\<close>, then \<^verbatim>\<open>sum += rhs\<close>.\<close>

definition plus_counter :: "AddBatchCounter \<Rightarrow> AddBatchCounter \<Rightarrow> AddBatchCounter" where
  "plus_counter lhs rhs = (let sum = lhs in plus_assign sum rhs)"

section \<open>be/src/runtime/tablets\_channel.h: TabletsChannelKey\<close>

text \<open>
  Modelled from the spec: \<^verbatim>\<open>UniqueId\<close> is declared in util/uid\_util.h, which is not
  among the sources. The specification describes the load id as a 128-bit unique
  identifier; it is taken as a 128-bit value and its \<^verbatim>\<open>==\<close> as equality of these
  values.
\<close>

type_synonym UniqueId = "128 word"

definition UniqueId_eq :: "UniqueId \<Rightarrow> UniqueId \<Rightarrow> bool" where
  "UniqueId_eq a b = (a = b)"

text \<open>
  \<^verbatim>\<open>struct TabletsChannelKey\<close> (lines 35-49). The member \<^verbatim>\<open>id\<close> is written \<open>id'\<close>,
  since \<open>id\<close> is the identity function of HOL.
\<close>

record TabletsChannelKey =
  id' :: UniqueId
  index_id :: int64_t

text \<open>The constructor \<^verbatim>\<open>TabletsChannelKey(pid, index_id_)\<close>.\<close>

definition TabletsChannelKey_new :: "UniqueId \<Rightarrow> int64_t \<Rightarrow> TabletsChannelKey" where
  "TabletsChannelKey_new pid idx = \<lparr>id' = pid, index_id = idx\<rparr>"

text \<open>\<^verbatim>\<open>operator==\<close>: \<^verbatim>\<open>index_id == rhs.index_id && id == rhs.id\<close>.\<close>

definition key_eq :: "TabletsChannelKey \<Rightarrow> TabletsChannelKey \<Rightarrow> bool" where
  "key_eq this rhs = (index_id this = index_id rhs \<and> UniqueId_eq (id' this) (id' rhs))"

section \<open>be/src/exec/tablet\_sink.h: NodeChannel\<close>

text \<open>
  The data members of \<^verbatim>\<open>class NodeChannel\<close> (lines 121-146) that carry the channel's
  state; the pointers to collaborators (parent sink, descriptors, RPC stub and closures)
  are left out. Private members drop their leading underscore. A tuple is the bytes of
  a row, and \<open>batch\<close> holds the rows of \<^verbatim>\<open>_batch\<close>, each with the tablet id it is
  tagged with; the batch is empty as long as it has not been allocated.
\<close>

type_synonym tuple = "8 word list"

record NodeChannel =
  nc_index_id :: int64_t
  nc_node_id :: int64_t
  nc_schema_hash :: int32_t
  already_failed :: bool
  has_in_flight_packet :: bool
  rpc_timeout_ms :: int32_t
  next_packet_seq :: int64_t
  batch :: "(tuple \<times> int64_t) list"
  serialize_batch_ns :: int64_t
  wait_in_flight_packet_ns :: int64_t
  add_batch_counter :: AddBatchCounter

text \<open>The default member initialisers of the header, member by member.\<close>

definition NodeChannel_init :: NodeChannel where
  "NodeChannel_init =
     \<lparr>nc_index_id = - 1, nc_node_id = - 1, nc_schema_hash = 0,
      already_failed = False, has_in_flight_packet = False,
      rpc_timeout_ms = 60000, next_packet_seq = 0, batch = [],
      serialize_batch_ns = 0, wait_in_flight_packet_ns = 0,
      add_batch_counter = AddBatchCounter_init\<rparr>"

text \<open>
  The constructor \<^verbatim>\<open>NodeChannel(parent, index_id, node_id, schema_hash)\<close> (line 79) is
  defined out of line. Its three value parameters are bound to the members of the same
  name; it has no parameter for any other member, so those keep their default member
  initialisers.
\<close>

definition NodeChannel_new :: "int64_t \<Rightarrow> int64_t \<Rightarrow> int32_t \<Rightarrow> NodeChannel" where
  "NodeChannel_new idx nid sh =
     NodeChannel_init\<lparr>nc_index_id := idx, nc_node_id := nid,
                      nc_schema_hash := sh\<rparr>"

text \<open>\<^verbatim>\<open>set_failed()\<close> and \<^verbatim>\<open>already_failed()\<close> (lines 102-103).\<close>

definition set_failed :: "NodeChannel \<Rightarrow> NodeChannel" where
  "set_failed ch = ch\<lparr>already_failed := True\<rparr>"

section \<open>Error kinds and statuses\<close>

text \<open>
  Modelled from the spec: \<^verbatim>\<open>Status\<close> is declared in common/status.h, which is not
  among the sources. A status is OK or one of the error kinds that the specification
  lists for the sink.
\<close>

datatype error =
  InvalidConfig | UnknownNode | OpenRpcFailed | RemoteRejected | MemLimit | BufferOff
  | SerializeFailed | QuorumLost | Cancelled | Timeout

datatype Status = OK | Err error

section \<open>NodeChannel: the send protocol\<close>

text \<open>
  An add-batch request as the receiver sees it: the packet sequence number, the
  end-of-stream flag and the rows of the batch with their tablet ids. The load id, index
  id and sender id of the request are the same on every request of a channel and are
  left out.
\<close>

record AddBatchRequest =
  packet_seq :: int64_t
  eos :: bool
  row_batch :: "(tuple \<times> int64_t) list"

text \<open>
  A channel is run together with its wire, the requests it has dispatched so far in
  order. The receiver is a parameter \<open>reply\<close>: the status with which it answers the
  request at a position of the wire.
\<close>

type_synonym channel_state = "NodeChannel \<times> AddBatchRequest list"

text \<open>
  Modelled from the spec: the body of \<^verbatim>\<open>NodeChannel::_wait_in_flight_packet\<close>
  (declared at line 116) is missing. If an RPC is in flight, wait for it and return its
  status (the header: return error if the in-flight packet returned failed); the
  request in flight is the last one dispatched.
\<close>

definition wait_in_flight_packet ::
  "(nat \<Rightarrow> Status) \<Rightarrow> channel_state \<Rightarrow> Status \<times> channel_state" where
  "wait_in_flight_packet reply st =
     (case st of (ch, wire) \<Rightarrow>
        if \<not> has_in_flight_packet ch then (OK, st)
        else (reply (length wire - 1), (ch\<lparr>has_in_flight_packet := False\<rparr>, wire)))"

text \<open>
  Modelled from the spec: the body of \<^verbatim>\<open>NodeChannel::_send_cur_batch\<close> (declared at
  line 114) is missing. The send protocol of the specification: wait for the RPC in
  flight and fail with its status if that is not OK; build a request that carries
  \<open>next_packet_seq\<close>, the current batch and \<open>eos\<close>; dispatch it, increment
  \<open>next_packet_seq\<close> and set the in-flight flag. The batch starts empty again.
\<close>

definition send_cur_batch ::
  "(nat \<Rightarrow> Status) \<Rightarrow> bool \<Rightarrow> channel_state \<Rightarrow> Status \<times> channel_state" where
  "send_cur_batch reply eos_flag st =
     (case wait_in_flight_packet reply st of
        (Err e, st') \<Rightarrow> (Err e, st')
      | (OK, (ch, wire)) \<Rightarrow>
          let request = \<lparr>packet_seq = next_packet_seq ch, eos = eos_flag,
                         row_batch = batch ch\<rparr>
          in (OK, (ch\<lparr>next_packet_seq := next_packet_seq ch + 1,
                       has_in_flight_packet := True, batch := []\<rparr>,
                   wire @ [request])))"

text \<open>
  Modelled from the spec: the body of \<^verbatim>\<open>NodeChannel::add_row\<close> (declared at line 91)
  is missing. Append the tuple with its tablet id to the batch; when the batch is full
  (it has reached the row-count limit \<open>cap\<close>), send it with \<open>eos = false\<close>.
\<close>

definition add_row ::
  "(nat \<Rightarrow> Status) \<Rightarrow> nat \<Rightarrow> tuple \<Rightarrow> int64_t \<Rightarrow> channel_state \<Rightarrow> Status \<times> channel_state" where
  "add_row reply cap t tablet_id st =
     (case st of (ch, wire) \<Rightarrow>
        let ch' = ch\<lparr>batch := batch ch @ [(t, tablet_id)]\<rparr>
        in if cap \<le> length (batch ch') then send_cur_batch reply False (ch', wire)
           else (OK, (ch', wire)))"

text \<open>
  Modelled from the spec: the bodies of \<^verbatim>\<open>NodeChannel::close\<close> and
  \<^verbatim>\<open>NodeChannel::close_wait\<close> (declared at lines 93-94) are missing. \<^verbatim>\<open>close\<close>
  force-sends the remainder with \<open>eos = true\<close>; \<^verbatim>\<open>close_wait\<close> blocks until the
  final RPC in flight completes and surfaces its status.
\<close>

definition close :: "(nat \<Rightarrow> Status) \<Rightarrow> channel_state \<Rightarrow> Status \<times> channel_state" where
  "close reply st = send_cur_batch reply True st"

definition close_wait :: "(nat \<Rightarrow> Status) \<Rightarrow> channel_state \<Rightarrow> Status \<times> channel_state" where
  "close_wait reply st = wait_in_flight_packet reply st"

text \<open>
  The life of a channel after open: \<^verbatim>\<open>add_row\<close> for each row in order, stopping at the
  first failure, then \<^verbatim>\<open>close\<close> and \<^verbatim>\<open>close_wait\<close>. The result is the status and the
  channel with everything the receiver has seen.
\<close>

fun add_rows ::
  "(nat \<Rightarrow> Status) \<Rightarrow> nat \<Rightarrow> (tuple \<times> int64_t) list \<Rightarrow> channel_state
     \<Rightarrow> Status \<times> channel_state" where
  "add_rows reply cap [] st = (OK, st)"
| "add_rows reply cap ((t, tablet_id) # rs) st =
     (case add_row reply cap t tablet_id st of
        (Err e, st') \<Rightarrow> (Err e, st')
      | (OK, st') \<Rightarrow> add_rows reply cap rs st')"

definition session ::
  "(nat \<Rightarrow> Status) \<Rightarrow> nat \<Rightarrow> (tuple \<times> int64_t) list \<Rightarrow> NodeChannel
     \<Rightarrow> Status \<times> channel_state" where
  "session reply cap rs ch =
     (case add_rows reply cap rs (ch, []) of
        (Err e, st) \<Rightarrow> (Err e, st)
      | (OK, st) \<Rightarrow>
          (case close reply st of
             (Err e, st') \<Rightarrow> (Err e, st')
           | (OK, st') \<Rightarrow> close_wait reply st'))"

text \<open>
  What the receiver of a channel has seen is in sequence when the requests carry the
  numbers 0, 1, 2, ... in order and the channel's next number is their count.
\<close>

definition in_sequence :: "channel_state \<Rightarrow> bool" where
  "in_sequence st =
     (case st of (ch, wire) \<Rightarrow>
        map packet_seq wire = map of_nat [0..<length wire]
        \<and> next_packet_seq ch = of_nat (length wire))"

text \<open>No request on the wire carries the end-of-stream flag.\<close>

definition no_eos :: "channel_state \<Rightarrow> bool" where
  "no_eos st = list_all (\<lambda>r. \<not> eos r) (snd st)"

text \<open>Five rows for three tablets, to be sent in batches of two.\<close>

definition five_rows :: "(tuple \<times> int64_t) list" where
  "five_rows = [([1], 10), ([2], 10), ([3], 11), ([4], 10), ([5], 12)]"

section \<open>be/src/exec/tablet\_sink.h: RowBuffer flags\<close>

text \<open>
  The two atomic flags of \<^verbatim>\<open>class RowBuffer\<close> (lines 239-240), with the queue and the
  byte accounting of the buffer: \<open>queue\<close> holds the quadruples in FIFO order,
  \<open>queue_runtime_size\<close> is the capacity \<^verbatim>\<open>size_limit\<close> of the constructor,
  \<open>byte_limit\<close> the limit of the buffer's memory tracker and \<open>consumption\<close> the bytes
  the tracker has recorded.
\<close>

type_synonym quadruple = "int64_t \<times> int64_t \<times> int64_t \<times> tuple"

record RowBuffer =
  off :: bool
  consume_err :: bool
  queue_runtime_size :: nat
  queue :: "quadruple list"
  byte_limit :: int
  consumption :: int



definition workable :: "RowBuffer \<Rightarrow> bool" where
  "workable b = (\<not> off b \<and> \<not> consume_err b)"

section \<open>RowBuffer: push\<close>


section \<open>be/src/exec/tablet\_sink.h: OlapTableSink configuration and counters\<close>

text \<open>
  The members of \<^verbatim>\<open>class OlapTableSink\<close> that the multi-threaded switch, the quorum and
  the row accounting read (lines 310, 322, 348-350, 366-368); \<open>num_repicas\<close> keeps the
  spelling of the source.
\<close>

record OlapTableSink =
  num_repicas :: int32_t
  need_validate_data :: bool
  buffer_num :: int32_t
  mem_limit_per_buf :: int64_t
  size_limit_per_buf :: int64_t
  number_input_rows :: int64_t
  number_output_rows :: int64_t
  number_filtered_rows :: int64_t

text \<open>The default member initialisers of these members.\<close>

definition OlapTableSink_init :: OlapTableSink where
  "OlapTableSink_init =
     \<lparr>num_repicas = - 1, need_validate_data = False, buffer_num = 0,
      mem_limit_per_buf = 1024 * 1024, size_limit_per_buf = 1024,
      number_input_rows = 0, number_output_rows = 0, number_filtered_rows = 0\<rparr>"

text \<open>\<^verbatim>\<open>_use_multi_thread()\<close> (line 292): \<^verbatim>\<open>return _buffer_num != 0;\<close>.\<close>

definition use_multi_thread :: "OlapTableSink \<Rightarrow> bool" where
  "use_multi_thread s = (buffer_num s \<noteq> 0)"

section \<open>be/src/exec/tablet\_sink.h: IndexChannel\<close>

text \<open>
  The data members of \<^verbatim>\<open>class IndexChannel\<close> (lines 185-199). The two unordered maps
  are association lists. A \<^verbatim>\<open>NodeChannel*\<close> is the node id under which
  \<open>node_channels\<close> holds the channel, so \<open>channels_by_tablet\<close> maps a tablet id to
  the node ids of its replica channels.
\<close>

record IndexChannel =
  ic_index_id :: int64_t
  ic_schema_hash :: int32_t
  num_failed_channels :: int32_t
  node_channels :: "(int64_t \<times> NodeChannel) list"
  channels_by_tablet :: "(int64_t \<times> int64_t list) list"

text \<open>The constructor (lines 151-152) with the default member initialisers.\<close>

definition IndexChannel_new :: "int64_t \<Rightarrow> int32_t \<Rightarrow> IndexChannel" where
  "IndexChannel_new idx sh =
     \<lparr>ic_index_id = idx, ic_schema_hash = sh, num_failed_channels = 0,
      node_channels = [], channels_by_tablet = []\<rparr>"

text \<open>\<^verbatim>\<open>channel->set_failed()\<close> on the channel held under node id \<open>nid\<close>.\<close>

definition mark_failed ::
  "int64_t \<Rightarrow> (int64_t \<times> NodeChannel) list \<Rightarrow> (int64_t \<times> NodeChannel) list" where
  "mark_failed nid chans =
     map (\<lambda>(k, ch). if k = nid then (k, set_failed ch) else (k, ch)) chans"

text \<open>A replica channel is live when the index holds it and it is not marked failed.\<close>

definition is_live :: "IndexChannel \<Rightarrow> int64_t \<Rightarrow> bool" where
  "is_live ic n =
     (case map_of (node_channels ic) n of None \<Rightarrow> False | Some ch \<Rightarrow> \<not> already_failed ch)"

definition live_replicas :: "IndexChannel \<Rightarrow> int64_t list \<Rightarrow> nat" where
  "live_replicas ic chs = length (filter (is_live ic) chs)"

text \<open>The number of channels of the index that are marked failed.\<close>

definition failed_count :: "IndexChannel \<Rightarrow> nat" where
  "failed_count ic = length (filter (\<lambda>(k, ch). already_failed ch) (node_channels ic))"

text \<open>
  Modelled from the spec: the body of \<^verbatim>\<open>IndexChannel::_handle_failed_node\<close> (declared
  at line 181, defined in tablet\_sink.cpp) is missing. The specification gives its
  steps: if the channel is already marked failed, return; mark it failed and increment
  \<open>num_failed_channels\<close>; for each tablet whose replica list includes the channel,
  recount its live replicas; if any such tablet falls below the quorum return true
  (load-fatal), otherwise false.

  The steps are written for any quorum \<open>need\<close>, the least number of live replicas of
  a tablet; \<open>quorum\<close> below computes it from the replication factor of the sink.
  \<open>early\<close> is the value returned for a channel that is already marked failed, which
  the specification does not give. The result is \<open>None\<close> when \<open>nid\<close> is not a
  channel of this index.
\<close>

definition p_handle_failed_node ::
  "nat \<Rightarrow> bool \<Rightarrow> int64_t \<Rightarrow> IndexChannel \<Rightarrow> (bool \<times> IndexChannel) option" where
  "p_handle_failed_node need early nid ic =
     (case map_of (node_channels ic) nid of
        None \<Rightarrow> None
      | Some ch \<Rightarrow>
          if already_failed ch then Some (early, ic)
          else
            let ic' = ic\<lparr>node_channels := mark_failed nid (node_channels ic),
                         num_failed_channels := num_failed_channels ic + 1\<rparr>
            in Some (list_ex (\<lambda>(t, chs). nid \<in> set chs \<and> live_replicas ic' chs < need)
                       (channels_by_tablet ic'), ic'))"

text \<open>
  \<^verbatim>\<open>handle_failed_node\<close> (lines 165-168) takes the lock of the index and calls
  \<^verbatim>\<open>_handle_failed_node\<close>.
\<close>

definition handle_failed_node ::
  "nat \<Rightarrow> bool \<Rightarrow> int64_t \<Rightarrow> IndexChannel \<Rightarrow> (bool \<times> IndexChannel) option" where
  "handle_failed_node need early nid ic = p_handle_failed_node need early nid ic"








text \<open>
  An index with three node channels 1, 2 and 3 and one tablet 10 replicated on all three.
\<close>

definition three_replicas :: IndexChannel where
  "three_replicas =
     (IndexChannel_new 0 0)
       \<lparr>node_channels := [(1, NodeChannel_new 0 1 0), (2, NodeChannel_new 0 2 0),
                          (3, NodeChannel_new 0 3 0)],
        channels_by_tablet := [(10, [1, 2, 3])]\<rparr>"




section \<open>OlapTableSink: validation, routing and row accounting\<close>







section \<open>Theorems\<close>

subsection \<open>Multi-threaded switch\<close>

text \<open>
  C4, as stated, fails: with \<^verbatim>\<open>_buffer_num = -1\<close> the sink is in multi-threaded mode
  although the configured value is not greater than 0.
\<close>

theorem use_multi_thread_negative_counterexample:
  "use_multi_thread (OlapTableSink_init\<lparr>buffer_num := - 1\<rparr>)
   \<and> \<not> 0 < sint (buffer_num (OlapTableSink_init\<lparr>buffer_num := - 1\<rparr>))"
  by (simp add: use_multi_thread_def)

text \<open>
  C4, amended: multi-threaded mode is active if and only if \<^verbatim>\<open>_buffer_num\<close> is different
  from 0; a value of 0 (the default) disables it, and for a non-negative value this is
  the same as being strictly greater than 0.
\<close>

theorem use_multi_thread_iff_nonzero:
  "(use_multi_thread s \<longleftrightarrow> buffer_num s \<noteq> 0)
   \<and> \<not> use_multi_thread (s\<lparr>buffer_num := 0\<rparr>)
   \<and> \<not> use_multi_thread OlapTableSink_init
   \<and> (0 \<le> sint (buffer_num s) \<longrightarrow> (use_multi_thread s \<longleftrightarrow> 0 < sint (buffer_num s)))"
proof -
  have "sint (buffer_num s) = 0 \<longleftrightarrow> buffer_num s = 0"
    by (metis signed_eq_0_iff)
  then show ?thesis
    by (auto simp: use_multi_thread_def OlapTableSink_init_def)
qed

theorem use_multi_thread_iff_nonzero_witness:
  "0 \<le> sint (buffer_num (OlapTableSink_init\<lparr>buffer_num := 4\<rparr>))
   \<and> use_multi_thread (OlapTableSink_init\<lparr>buffer_num := 4\<rparr>)
   \<and> 0 < sint (buffer_num (OlapTableSink_init\<lparr>buffer_num := 4\<rparr>))"
  using use_multi_thread_iff_nonzero [of "OlapTableSink_init\<lparr>buffer_num := 4\<rparr>"]
  by simp

subsection \<open>RowBuffer.workable\<close>

text \<open>
  C5: for every RowBuffer state, \<^verbatim>\<open>workable()\<close> is true if and only if the buffer has
  not been turned off and no consumer error has occurred.
\<close>

theorem workable_iff:
  "workable b = (\<not> off b \<and> \<not> consume_err b)"
  by (simp add: workable_def)

subsection \<open>Default RPC timeout\<close>

text \<open>
  C8: a freshly constructed NodeChannel has \<^verbatim>\<open>_rpc_timeout_ms\<close> equal to 60000, that is
  60 seconds, whatever the constructor's arguments are.
\<close>

theorem rpc_timeout_default:
  "rpc_timeout_ms (NodeChannel_new idx nid sh) = 60000
   \<and> sint (rpc_timeout_ms (NodeChannel_new idx nid sh)) = 60 * 1000
   \<and> rpc_timeout_ms NodeChannel_init = 60000"
  by (simp add: NodeChannel_new_def NodeChannel_init_def)

subsection \<open>AddBatchCounter\<close>

text \<open>
  C9: \<^verbatim>\<open>operator+=\<close> adds the three members componentwise as 64-bit integers,
  \<^verbatim>\<open>operator+\<close> agrees with it, the operation is commutative and associative, and the
  default-constructed counter is its identity on both sides.
\<close>

theorem AddBatchCounter_commutative_monoid:
  "plus_assign a b =
     \<lparr>add_batch_execution_time_us =
        add_batch_execution_time_us a + add_batch_execution_time_us b,
      add_batch_wait_lock_time_us =
        add_batch_wait_lock_time_us a + add_batch_wait_lock_time_us b,
      add_batch_num = add_batch_num a + add_batch_num b\<rparr>
   \<and> plus_counter a b = plus_assign a b
   \<and> plus_counter a b = plus_counter b a
   \<and> plus_counter (plus_counter a b) c = plus_counter a (plus_counter b c)
   \<and> plus_counter AddBatchCounter_init a = a
   \<and> plus_counter a AddBatchCounter_init = a"
  by (simp add: plus_counter_def plus_assign_def AddBatchCounter_init_def Let_def
      add.commute add.left_commute)

subsection \<open>TabletsChannelKey equality\<close>

text \<open>
  C10: \<^verbatim>\<open>k1 == k2\<close> is true if and only if the two keys have the same \<^verbatim>\<open>index_id\<close> and
  the same \<^verbatim>\<open>id\<close>; the relation is reflexive, symmetric and transitive, and two keys are
  equal exactly when they are built from the same (load id, index id) pair.
\<close>

theorem key_eq_equivalence:
  "(key_eq k1 k2 \<longleftrightarrow> index_id k1 = index_id k2 \<and> id' k1 = id' k2)
   \<and> key_eq k1 k1
   \<and> (key_eq k1 k2 \<longleftrightarrow> key_eq k2 k1)
   \<and> (key_eq k1 k2 \<longrightarrow> key_eq k2 k3 \<longrightarrow> key_eq k1 k3)
   \<and> (key_eq (TabletsChannelKey_new p i) (TabletsChannelKey_new q j) \<longleftrightarrow> p = q \<and> i = j)"
  by (auto simp: key_eq_def UniqueId_eq_def TabletsChannelKey_new_def)

theorem key_eq_equivalence_witness:
  "key_eq (TabletsChannelKey_new 7 1) (TabletsChannelKey_new 7 1)
   \<and> \<not> key_eq (TabletsChannelKey_new 7 1) (TabletsChannelKey_new 7 2)
   \<and> \<not> key_eq (TabletsChannelKey_new 7 1) (TabletsChannelKey_new 8 1)"
  using key_eq_equivalence [of "TabletsChannelKey_new 7 1" "TabletsChannelKey_new 7 1"
      "TabletsChannelKey_new 7 1" 7 1 7 2]
    key_eq_equivalence [of "TabletsChannelKey_new 7 1" "TabletsChannelKey_new 7 1"
      "TabletsChannelKey_new 7 1" 7 1 8 1]
  by simp

subsection \<open>Marking a channel failed\<close>


lemma map_of_mark_same:
  "map_of chans nid = Some ch \<Longrightarrow> map_of (mark_failed nid chans) nid = Some (set_failed ch)"
  by (induction chans) (auto simp: mark_failed_def split: if_splits)

lemma mark_failed_absent: "nid \<notin> fst ` set chans \<Longrightarrow> mark_failed nid chans = chans"
  by (induction chans) (auto simp: mark_failed_def)

lemma map_fst_mark_failed: "map fst (mark_failed nid chans) = map fst chans"
  by (induction chans) (auto simp: mark_failed_def)



lemma failed_filter_marked:
  assumes "distinct (map fst chans)" and "map_of chans nid = Some ch"
    and "\<not> already_failed ch"
  shows "length (filter (\<lambda>(k, c). already_failed c) (mark_failed nid chans))
         = Suc (length (filter (\<lambda>(k, c). already_failed c) chans))"
  using assms
proof (induction chans)
  case Nil
  then show ?case by simp
next
  case (Cons kc chans)
  obtain k c where kc: "kc = (k, c)" by (cases kc)
  show ?case
  proof (cases "k = nid")
    case True
    with Cons.prems kc have "nid \<notin> fst ` set chans" and "c = ch" by auto
    with True kc Cons.prems(3) show ?thesis
      using mark_failed_absent [of nid chans]
      by (simp add: mark_failed_def set_failed_def)
  next
    case False
    with Cons.prems kc have "distinct (map fst chans)" and "map_of chans nid = Some ch"
      by auto
    from Cons.IH [OF this Cons.prems(3)] False kc show ?thesis
      by (simp add: mark_failed_def)
  qed
qed

lemma failed_count_counter [simp]:
  "failed_count (ic\<lparr>num_failed_channels := c\<rparr>) = failed_count ic"
  by (simp add: failed_count_def)

lemma failed_count_le: "failed_count ic \<le> length (node_channels ic)"
  by (simp add: failed_count_def)

lemma sint_of_nat_32: "n < 2 ^ 31 \<Longrightarrow> sint (of_nat n :: 32 word) = int n"
  by (simp add: signed_of_nat signed_take_bit_int_eq_self)

subsection \<open>One failed channel\<close>

lemma handle_failed_node_fresh:
  assumes "map_of (node_channels ic) nid = Some ch" and "\<not> already_failed ch"
  shows "handle_failed_node need early nid ic =
           Some (list_ex (\<lambda>(t, chs). nid \<in> set chs \<and>
                    live_replicas (ic\<lparr>node_channels := mark_failed nid (node_channels ic),
                       num_failed_channels := num_failed_channels ic + 1\<rparr>) chs < need)
                   (channels_by_tablet ic),
                 ic\<lparr>node_channels := mark_failed nid (node_channels ic),
                    num_failed_channels := num_failed_channels ic + 1\<rparr>)"
  using assms by (simp add: handle_failed_node_def p_handle_failed_node_def Let_def)

lemma handle_failed_node_failed:
  assumes "map_of (node_channels ic) nid = Some ch" and "already_failed ch"
  shows "handle_failed_node need early nid ic = Some (early, ic)"
  using assms by (simp add: handle_failed_node_def p_handle_failed_node_def)



subsection \<open>A sequence of failed channels\<close>


lemmas index_channel_eval =
  handle_failed_node_def p_handle_failed_node_def three_replicas_def IndexChannel_new_def
  NodeChannel_new_def NodeChannel_init_def mark_failed_def live_replicas_def is_live_def
  set_failed_def failed_count_def Let_def

subsection \<open>Quorum rule\<close>












subsection \<open>Idempotence of handle\_failed\_node\<close>

text \<open>
  C7: for a channel of an index whose node ids are distinct, a call of
  \<^verbatim>\<open>handle_failed_node\<close> on a channel that is already marked failed returns with the
  index unchanged, so neither \<open>num_failed_channels\<close> nor any live-replica count
  changes; in particular a second call after a first one changes nothing. A call marks
  at most one more channel failed and increments the counter exactly then, so the
  counter keeps being the number of channels marked failed (as a 32-bit value, and as a
  number while the index has fewer than 2^31 channels).
\<close>

theorem handle_failed_node_idempotent:
  assumes d: "distinct (map fst (node_channels ic))"
    and ch: "map_of (node_channels ic) nid = Some ch"
  shows "\<exists>v ic'. handle_failed_node need early nid ic = Some (v, ic')
     \<and> handle_failed_node need early nid ic' = Some (early, ic')
     \<and> (already_failed ch \<longrightarrow> v = early \<and> ic' = ic)
     \<and> failed_count ic' = (if already_failed ch then failed_count ic else failed_count ic + 1)
     \<and> (num_failed_channels ic = of_nat (failed_count ic)
          \<longrightarrow> num_failed_channels ic' = of_nat (failed_count ic'))
     \<and> (num_failed_channels ic' = of_nat (failed_count ic')
          \<and> length (node_channels ic') < 2 ^ 31
          \<longrightarrow> sint (num_failed_channels ic') = int (failed_count ic'))
     \<and> distinct (map fst (node_channels ic'))"
proof -
  have rd: "num_failed_channels x = of_nat (failed_count x)
          \<and> length (node_channels x) < 2 ^ 31
          \<longrightarrow> sint (num_failed_channels x) = int (failed_count x)" for x
    using failed_count_le [of x] sint_of_nat_32 [of "failed_count x"] by auto
  show ?thesis
  proof (cases "already_failed ch")
    case True
    from handle_failed_node_failed [OF ch True, of need early] True d rd [of ic]
    show ?thesis by simp
  next
    case False
    let ?ic' = "ic\<lparr>node_channels := mark_failed nid (node_channels ic),
                    num_failed_channels := num_failed_channels ic + 1\<rparr>"
    have ch': "map_of (node_channels ?ic') nid = Some (set_failed ch)"
      using ch by (simp add: map_of_mark_same)
    have second: "handle_failed_node need early nid ?ic' = Some (early, ?ic')"
      by (rule handle_failed_node_failed [OF ch']) (simp add: set_failed_def)
    have cnt: "failed_count (ic\<lparr>node_channels := mark_failed nid (node_channels ic)\<rparr>)
        = failed_count ic + 1"
      using failed_filter_marked [OF d ch False] by (simp add: failed_count_def)
    have dist: "distinct (map fst (node_channels ?ic'))"
      using d by (simp add: map_fst_mark_failed)
    have first: "handle_failed_node need early nid ic = Some
        (list_ex (\<lambda>(t, chs). nid \<in> set chs \<and> live_replicas ?ic' chs < need)
           (channels_by_tablet ic), ?ic')"
      by (rule handle_failed_node_fresh [OF ch False])
    have c1: "failed_count ?ic' =
        (if already_failed ch then failed_count ic else failed_count ic + 1)"
      using cnt False by simp
    have c2: "num_failed_channels ic = of_nat (failed_count ic)
          \<longrightarrow> num_failed_channels ?ic' = of_nat (failed_count ?ic')"
      using cnt by simp
    from first second False c1 c2 rd [of ?ic'] dist show ?thesis
      by blast
  qed
qed

theorem handle_failed_node_idempotent_witness:
  "distinct (map fst (node_channels three_replicas))
   \<and> map_of (node_channels three_replicas) 1 = Some (NodeChannel_new 0 1 0)
   \<and> (\<exists>ic'. handle_failed_node 2 False 1 three_replicas = Some (False, ic')
         \<and> handle_failed_node 2 False 1 ic' = Some (False, ic')
         \<and> num_failed_channels ic' = 1 \<and> failed_count ic' = 1)"
proof -
  have d: "distinct (map fst (node_channels three_replicas))"
    by (simp add: index_channel_eval)
  have ch: "map_of (node_channels three_replicas) 1 = Some (NodeChannel_new 0 1 0)"
    by (simp add: index_channel_eval)
  from handle_failed_node_idempotent [OF d ch, of 2 False] d ch show ?thesis
    by (simp add: index_channel_eval)
qed

subsection \<open>The send protocol keeps the wire in sequence\<close>

lemma wait_wire:
  "wait_in_flight_packet reply (ch, wire) = (s, (ch', wire')) \<Longrightarrow>
     wire' = wire \<and> next_packet_seq ch' = next_packet_seq ch \<and> batch ch' = batch ch"
  by (auto simp: wait_in_flight_packet_def split: if_splits)

lemma send_cur_batch_OK:
  assumes "send_cur_batch reply e (ch, wire) = (OK, (ch', wire'))"
  shows "wire' = wire @ [\<lparr>packet_seq = next_packet_seq ch, eos = e, row_batch = batch ch\<rparr>]
         \<and> next_packet_seq ch' = next_packet_seq ch + 1"
proof -
  obtain s c w where fields: "wait_in_flight_packet reply (ch, wire) = (s, (c, w))"
    by (cases "wait_in_flight_packet reply (ch, wire)") auto
  from wait_wire [OF fields]
  have "w = wire" "next_packet_seq c = next_packet_seq ch" "batch c = batch ch" by auto
  with assms fields show ?thesis
    by (cases s) (auto simp: send_cur_batch_def Let_def)
qed

lemma send_cur_batch_Err:
  assumes "send_cur_batch reply e (ch, wire) = (Err x, (ch', wire'))"
  shows "wire' = wire \<and> next_packet_seq ch' = next_packet_seq ch"
proof -
  obtain s c w where fields: "wait_in_flight_packet reply (ch, wire) = (s, (c, w))"
    by (cases "wait_in_flight_packet reply (ch, wire)") auto
  from wait_wire [OF fields]
  have "w = wire" "next_packet_seq c = next_packet_seq ch" by auto
  with assms fields show ?thesis
    by (cases s) (auto simp: send_cur_batch_def Let_def)
qed

lemma in_sequence_send:
  assumes "in_sequence (ch, wire)" and "send_cur_batch reply e (ch, wire) = (s, st')"
  shows "in_sequence st'"
proof -
  obtain ch' wire' where st': "st' = (ch', wire')" by (cases st')
  show ?thesis
  proof (cases s)
    case OK
    from send_cur_batch_OK [of reply e ch wire ch' wire'] assms st' OK show ?thesis
      by (auto simp: in_sequence_def)
  next
    case (Err x)
    from send_cur_batch_Err [of reply e ch wire x ch' wire'] assms st' Err show ?thesis
      by (auto simp: in_sequence_def)
  qed
qed

lemma no_eos_send_False:
  assumes "no_eos (ch, wire)" and "send_cur_batch reply False (ch, wire) = (s, st')"
  shows "no_eos st'"
proof -
  obtain ch' wire' where st': "st' = (ch', wire')" by (cases st')
  show ?thesis
  proof (cases s)
    case OK
    from send_cur_batch_OK [of reply False ch wire ch' wire'] assms st' OK show ?thesis
      by (auto simp: no_eos_def)
  next
    case (Err x)
    from send_cur_batch_Err [of reply False ch wire x ch' wire'] assms st' Err show ?thesis
      by (auto simp: no_eos_def)
  qed
qed

lemma add_row_inv:
  assumes "in_sequence st" and "no_eos st" and "add_row reply cap t tid st = (s, st')"
  shows "in_sequence st' \<and> no_eos st'"
proof -
  obtain ch wire where st: "st = (ch, wire)" by (cases st)
  let ?ch = "ch\<lparr>batch := batch ch @ [(t, tid)]\<rparr>"
  have seq: "in_sequence (?ch, wire)" and ne: "no_eos (?ch, wire)"
    using assms(1,2) st by (auto simp: in_sequence_def no_eos_def)
  show ?thesis
  proof (cases "cap \<le> length (batch ?ch)")
    case True
    with assms(3) st have "send_cur_batch reply False (?ch, wire) = (s, st')"
      by (simp add: add_row_def Let_def)
    from in_sequence_send [OF seq this] no_eos_send_False [OF ne this] show ?thesis by simp
  next
    case False
    with assms(3) st have "st' = (?ch, wire)"
      by (simp add: add_row_def Let_def)
    with seq ne show ?thesis by simp
  qed
qed

lemma add_rows_inv:
  assumes "in_sequence st" and "no_eos st" and "add_rows reply cap rs st = (s, st')"
  shows "in_sequence st' \<and> no_eos st'"
  using assms
proof (induction rs arbitrary: st)
  case Nil
  then show ?case by simp
next
  case (Cons r rs)
  obtain t tid where r: "r = (t, tid)" by (cases r)
  obtain s1 st1 where step: "add_row reply cap t tid st = (s1, st1)"
    by (cases "add_row reply cap t tid st")
  from add_row_inv [OF Cons.prems(1,2) step] have inv1: "in_sequence st1" "no_eos st1" by auto
  show ?case
  proof (cases s1)
    case OK
    with Cons.prems(3) r step have "add_rows reply cap rs st1 = (s, st')" by simp
    from Cons.IH [OF inv1 this] show ?thesis .
  next
    case (Err x)
    with Cons.prems(3) r step have "st' = st1" by simp
    with inv1 show ?thesis by simp
  qed
qed

lemma sint_of_nat_64: "n < 2 ^ 63 \<Longrightarrow> sint (of_nat n :: 64 word) = int n"
  by (simp add: signed_of_nat signed_take_bit_int_eq_self)

lemma sint_seq:
  assumes "n \<le> 2 ^ 63"
  shows "map (sint \<circ> (of_nat :: nat \<Rightarrow> 64 word)) [0..<n] = map int [0..<n]"
  using assms by (intro map_cong) (auto simp: sint_of_nat_64)

lemma in_sequence_signed:
  assumes "in_sequence (ch, wire)" and "length wire \<le> 2 ^ 63"
  shows "map (sint \<circ> packet_seq) wire = map int [0..<length wire]"
    and "distinct (map packet_seq wire)"
proof -
  from assms(1) have w: "map packet_seq wire = map of_nat [0..<length wire]"
    by (simp add: in_sequence_def)
  have "map (sint \<circ> packet_seq) wire = map sint (map packet_seq wire)" by simp
  also have "\<dots> = map (sint \<circ> (of_nat :: nat \<Rightarrow> 64 word)) [0..<length wire]"
    by (simp add: w)
  also have "\<dots> = map int [0..<length wire]" by (rule sint_seq [OF assms(2)])
  finally show s: "map (sint \<circ> packet_seq) wire = map int [0..<length wire]" .
  have "distinct (map int [0..<length wire])"
    by (simp add: distinct_map)
  with s have "distinct (map sint (map packet_seq wire))" by simp
  then show "distinct (map packet_seq wire)"
    by (rule distinct_map [THEN iffD1, THEN conjunct1])
qed

lemma session_inv:
  assumes "session reply cap rs (NodeChannel_new idx nid sh) = (s, (ch', wire'))"
  shows "in_sequence (ch', wire') \<and> list_all (\<lambda>r. \<not> eos r) (butlast wire')
         \<and> (s = OK \<longrightarrow> wire' \<noteq> [] \<and> eos (last wire'))"
proof -
  let ?ch0 = "NodeChannel_new idx nid sh"
  have init: "in_sequence (?ch0, [])" "no_eos (?ch0, [])"
    by (simp_all add: in_sequence_def no_eos_def NodeChannel_new_def NodeChannel_init_def)
  obtain s1 st1 where rows: "add_rows reply cap rs (?ch0, []) = (s1, st1)"
    by (cases "add_rows reply cap rs (?ch0, [])")
  from add_rows_inv [OF init rows] have inv1: "in_sequence st1" "no_eos st1" by auto
  obtain ch1 wire1 where st1: "st1 = (ch1, wire1)" by (cases st1)
  show ?thesis
  proof (cases s1)
    case (Err x)
    with assms rows st1 have "s = Err x" "ch' = ch1" "wire' = wire1"
      by (simp_all add: session_def)
    with inv1 st1 show ?thesis
      by (auto simp: no_eos_def list_all_iff dest: in_set_butlastD)
  next
    case OK
    obtain s2 ch2 wire2 where cl: "close reply st1 = (s2, (ch2, wire2))"
      by (cases "close reply st1") auto
    then have snd: "send_cur_batch reply True (ch1, wire1) = (s2, (ch2, wire2))"
      by (simp add: close_def st1)
    from in_sequence_send [OF _ snd] inv1 st1 have seq2: "in_sequence (ch2, wire2)" by simp
    show ?thesis
    proof (cases s2)
      case (Err x)
      from send_cur_batch_Err [of reply True ch1 wire1 x ch2 wire2] snd Err
      have "wire2 = wire1" by simp
      moreover from assms rows OK cl Err have "s = Err x" "ch' = ch2" "wire' = wire2"
        by (simp_all add: session_def)
      ultimately show ?thesis using seq2 inv1 st1
        by (auto simp: no_eos_def list_all_iff dest: in_set_butlastD)
    next
      case OK2: OK
      from send_cur_batch_OK [of reply True ch1 wire1 ch2 wire2] snd OK2
      have w2: "wire2 = wire1 @ [\<lparr>packet_seq = next_packet_seq ch1, eos = True, row_batch = batch ch1\<rparr>]"
        by simp
      from assms rows OK cl OK2 have cw: "close_wait reply (ch2, wire2) = (s, (ch', wire'))"
        by (simp add: session_def)
      from wait_wire [of reply ch2 wire2 s ch' wire'] cw
      have "wire' = wire2" "next_packet_seq ch' = next_packet_seq ch2"
        by (simp_all add: close_wait_def)
      with seq2 w2 inv1 st1 show ?thesis
        by (auto simp: in_sequence_def no_eos_def)
    qed
  qed
qed


lemmas node_channel_eval =
  session_def add_row_def send_cur_batch_def wait_in_flight_packet_def close_def
  close_wait_def NodeChannel_new_def NodeChannel_init_def five_rows_def Let_def

subsection \<open>Packet sequencing\<close>

text \<open>
  C2, as stated, fails for a channel whose RPC fails. With batches of one row and a
  receiver that rejects the first request, the second \<^verbatim>\<open>add_row\<close> fails on the RPC
  in flight and the session ends there: the receiver has seen the single request with
  sequence number 0 and \<open>eos = false\<close>, so the last request does not have
  \<open>eos = true\<close>.
\<close>

theorem packet_sequence_failed_session_counterexample:
  "fst (session (\<lambda>k. Err RemoteRejected) 1 [([1], 10), ([2], 10)] (NodeChannel_new 0 1 0))
     = Err RemoteRejected
   \<and> map packet_seq
        (snd (snd (session (\<lambda>k. Err RemoteRejected) 1 [([1], 10), ([2], 10)]
                     (NodeChannel_new 0 1 0)))) = [0]
   \<and> map eos
        (snd (snd (session (\<lambda>k. Err RemoteRejected) 1 [([1], 10), ([2], 10)]
                     (NodeChannel_new 0 1 0)))) = [False]"
  by (simp add: node_channel_eval)

text \<open>
  C2, amended: \<open>next_packet_seq\<close> of a fresh channel is 0, and a batch that is sent
  carries the current value and increments it by exactly one, while a send that fails
  on the RPC in flight dispatches nothing. In every session of a channel (rows added in
  order, then close and close\_wait), whatever the receiver replies, the requests on the
  wire carry the numbers 0, 1, 2, ... in order with no gap and no duplicate (as 64-bit
  values, and as signed numbers up to 2^63 requests), and no request before the last
  one has \<open>eos\<close>. When the session returns OK the last request has \<open>eos = true\<close>.
\<close>

theorem packet_sequence:
  "next_packet_seq (NodeChannel_new idx nid sh) = 0
   \<and> (case send_cur_batch reply e (ch, wire) of
         (OK, ch1, wire1) \<Rightarrow>
           wire1 = wire @ [\<lparr>packet_seq = next_packet_seq ch, eos = e, row_batch = batch ch\<rparr>]
           \<and> next_packet_seq ch1 = next_packet_seq ch + 1
       | (Err x, ch1, wire1) \<Rightarrow>
           wire1 = wire \<and> next_packet_seq ch1 = next_packet_seq ch)
   \<and> (case session reply cap rs (NodeChannel_new idx nid sh) of
         (s, ch2, wire2) \<Rightarrow>
           map packet_seq wire2 = map of_nat [0..<length wire2]
           \<and> next_packet_seq ch2 = of_nat (length wire2)
           \<and> (length wire2 \<le> 2 ^ 63 \<longrightarrow>
                 map (sint \<circ> packet_seq) wire2 = map int [0..<length wire2]
                 \<and> distinct (map packet_seq wire2))
           \<and> list_all (\<lambda>r. \<not> eos r) (butlast wire2)
           \<and> (s = OK \<longrightarrow> wire2 \<noteq> [] \<and> eos (last wire2)))"
proof -
  have fresh: "next_packet_seq (NodeChannel_new idx nid sh) = 0"
    by (simp add: NodeChannel_new_def NodeChannel_init_def)
  obtain s1 ch1 wire1 where snd: "send_cur_batch reply e (ch, wire) = (s1, (ch1, wire1))"
    by (cases "send_cur_batch reply e (ch, wire)") auto
  have one: "case send_cur_batch reply e (ch, wire) of
         (OK, ch1, wire1) \<Rightarrow>
           wire1 = wire @ [\<lparr>packet_seq = next_packet_seq ch, eos = e, row_batch = batch ch\<rparr>]
           \<and> next_packet_seq ch1 = next_packet_seq ch + 1
       | (Err x, ch1, wire1) \<Rightarrow>
           wire1 = wire \<and> next_packet_seq ch1 = next_packet_seq ch"
  proof (cases s1)
    case OK
    with snd send_cur_batch_OK [of reply e ch wire ch1 wire1] show ?thesis by simp
  next
    case (Err x)
    with snd send_cur_batch_Err [of reply e ch wire x ch1 wire1] show ?thesis by simp
  qed
  obtain s ch2 wire2 where
    ses: "session reply cap rs (NodeChannel_new idx nid sh) = (s, (ch2, wire2))"
    by (cases "session reply cap rs (NodeChannel_new idx nid sh)") auto
  from session_inv [OF ses] have seq: "in_sequence (ch2, wire2)"
    and flags: "list_all (\<lambda>r. \<not> eos r) (butlast wire2)"
    and last: "s = OK \<longrightarrow> wire2 \<noteq> [] \<and> eos (last wire2)"
    by auto
  have signed: "length wire2 \<le> 2 ^ 63 \<longrightarrow>
      map (sint \<circ> packet_seq) wire2 = map int [0..<length wire2]
      \<and> distinct (map packet_seq wire2)"
    using in_sequence_signed [OF seq] by blast
  from seq have "map packet_seq wire2 = map of_nat [0..<length wire2]"
    and "next_packet_seq ch2 = of_nat (length wire2)"
    by (simp_all add: in_sequence_def)
  with fresh one ses flags last signed show ?thesis
    by simp
qed

theorem packet_sequence_witness:
  "fst (session (\<lambda>k. OK) 2 five_rows (NodeChannel_new 0 1 0)) = OK
   \<and> length (snd (snd (session (\<lambda>k. OK) 2 five_rows (NodeChannel_new 0 1 0)))) \<le> 2 ^ 63
   \<and> map packet_seq (snd (snd (session (\<lambda>k. OK) 2 five_rows (NodeChannel_new 0 1 0))))
       = [0, 1, 2]
   \<and> map eos (snd (snd (session (\<lambda>k. OK) 2 five_rows (NodeChannel_new 0 1 0))))
       = [False, False, True]
   \<and> map row_batch (snd (snd (session (\<lambda>k. OK) 2 five_rows (NodeChannel_new 0 1 0))))
       = [[([1], 10), ([2], 10)], [([3], 11), ([4], 10)], [([5], 12)]]"
  using packet_sequence [where idx = 0 and nid = 1 and sh = 0 and reply = "\<lambda>k. OK"
      and e = False and ch = "NodeChannel_new 0 1 0" and wire = "[]" and cap = 2
      and rs = five_rows]
  by (simp add: node_channel_eval)

subsection \<open>RowBuffer.push\<close>




subsection \<open>Routing and the row counters\<close>


















subsection \<open>Filter accounting\<close>




end
